theory Spec2Isabelle
  imports Main "HOL-Library.Char_ord" "HOL-Library.List_Lexorder"
begin

section \<open>Browser finder of telemetry: data model\<close>

text \<open>
  The development embeds \<^verbatim>\<open>telemetry/internal/browser/browser_finder.py\<close>.
  Strings are compared as Python compares them (lexicographically, character by character);
  \<^verbatim>\<open>last_modification_time\<close> is a number and is modelled as an integer.
  The option sub-object \<^verbatim>\<open>options.browser_options\<close> and a device are opaque handles; the
  device \<^verbatim>\<open>None\<close> is the only falsy one.
\<close>

type_synonym browser_options = nat
type_synonym device = "nat option"

text \<open>
  A \<^verbatim>\<open>PossibleBrowser\<close>: the attributes the finder reads, the capability query
  \<^verbatim>\<open>SupportsOptions\<close>, and the identity of the object (\<open>browser_id\<close>), which tells
  two candidates with equal attributes apart.
\<close>

record possible_browser =
  browser_id :: nat
  browser_type :: string
  target_os :: string
  last_modification_time :: int
  SupportsOptions :: "browser_options \<Rightarrow> bool"

text \<open>
  A \<^verbatim>\<open>BrowserFinderOptions\<close> object. \<open>class_name\<close> is
  \<^verbatim>\<open>options.__class__.__name__\<close>; the three optional attributes are \<open>None\<close> when unset.
  The attribute \<^verbatim>\<open>options.browser_type\<close> is the field \<open>options_browser_type\<close>.
\<close>

record browser_finder_options =
  class_name :: string
  fake_possible_browser :: "possible_browser option"
  options_browser_type :: "string option"
  browser_executable :: "string option"
  cros_remote :: "string option"
  browser_options :: browser_options

datatype finder = desktop_browser_finder | android_browser_finder | cros_browser_finder

definition BROWSER_FINDERS :: "finder list" where
  "BROWSER_FINDERS = [desktop_browser_finder, android_browser_finder, cros_browser_finder]"

text \<open>
  The collaborators the module imports and calls: the three functions every finder module
  exposes, and \<^verbatim>\<open>device_finder.GetDevicesMatchingOptions\<close>. They are parameters of
  the model.
\<close>

record environment =
  finder_FindAllBrowserTypes :: "finder \<Rightarrow> browser_finder_options \<Rightarrow> string list"
  finder_FindAllAvailableBrowsers ::
    "finder \<Rightarrow> browser_finder_options \<Rightarrow> device \<Rightarrow> possible_browser list"
  finder_SelectDefaultBrowser :: "finder \<Rightarrow> possible_browser list \<Rightarrow> possible_browser option"
  GetDevicesMatchingOptions :: "browser_finder_options \<Rightarrow> device list"

datatype error =
    BrowserFinderException string
  | BrowserTypeRequiredException string
  | ValueError

text \<open>The calls a run makes to its collaborators, in order.\<close>

datatype event =
    GetDevicesMatchingOptions_call
  | FindAllBrowserTypes_call finder
  | FindAllAvailableBrowsers_call finder device
  | SelectDefaultBrowser_call finder
  | UpdateExecutableIfNeeded_call possible_browser

section \<open>Python built-ins the module uses\<close>

text \<open>\<^verbatim>\<open>max(xs, key=k)\<close> on a non-empty list \<open>x # xs\<close>: the first maximal element.\<close>

fun py_max :: "('a \<Rightarrow> 'k::linorder) \<Rightarrow> 'a \<Rightarrow> 'a list \<Rightarrow> 'a" where
  "py_max key best [] = best"
| "py_max key best (y # ys) = py_max key (if key best < key y then y else best) ys"

text \<open>\<^verbatim>\<open>min(xs, key=k)\<close> on a non-empty list \<open>x # xs\<close>: the first minimal element.\<close>

fun py_min :: "('a \<Rightarrow> 'k::linorder) \<Rightarrow> 'a \<Rightarrow> 'a list \<Rightarrow> 'a" where
  "py_min key best [] = best"
| "py_min key best (y # ys) = py_min key (if key y < key best then y else best) ys"

text \<open>
  \<^verbatim>\<open>xs.index(x)\<close> for an \<open>x\<close> that occurs in \<open>xs\<close>: the position of its first
  occurrence. (For an \<open>x\<close> that does not occur Python raises \<^verbatim>\<open>ValueError\<close>; the caller
  below tests membership first.)
\<close>

fun index :: "'a list \<Rightarrow> 'a \<Rightarrow> nat" where
  "index [] x = 0"
| "index (y # ys) x = (if y = x then 0 else Suc (index ys x))"

text \<open>\<^verbatim>\<open>sep.join(xs)\<close>.\<close>

fun join :: "string \<Rightarrow> string list \<Rightarrow> string" where
  "join sep [] = []"
| "join sep [x] = x"
| "join sep (x # y # ys) = x @ sep @ join sep (y # ys)"

text \<open>\<^verbatim>\<open>s.startswith(p)\<close>.\<close>

definition startswith :: "string \<Rightarrow> string \<Rightarrow> bool" where
  "startswith s p = (take (length p) s = p)"

text \<open>\<^verbatim>\<open>sorted(set(xs))\<close>: the distinct elements in ascending order.\<close>

definition sorted_set :: "string list \<Rightarrow> string list" where
  "sorted_set xs = sort (remdups xs)"

section \<open>FindAllBrowserTypes\<close>

definition FindAllBrowserTypes :: "environment \<Rightarrow> browser_finder_options \<Rightarrow> string list" where
  "FindAllBrowserTypes env options =
     concat (map (\<lambda>bf. finder_FindAllBrowserTypes env bf options) BROWSER_FINDERS)"

section \<open>FindBrowser\<close>

text \<open>Lines 45 to 59: the four checks, in the order of the source.\<close>

definition check_options :: "browser_finder_options \<Rightarrow> error option" where
  "check_options options =
    (if options_browser_type options = Some ''exact'' \<and> browser_executable options = None then
       Some (BrowserFinderException ''--browser=exact requires --browser-executable to be set.'')
     else if options_browser_type options \<noteq> Some ''exact'' \<and> browser_executable options \<noteq> None then
       Some (BrowserFinderException ''--browser-executable requires --browser=exact.'')
     else if options_browser_type options = Some ''cros-chrome'' \<and> cros_remote options = None then
       Some (BrowserFinderException ''browser_type=cros-chrome requires cros_remote be set.'')
     else if options_browser_type options \<noteq> Some ''cros-chrome'' \<and>
             options_browser_type options \<noteq> Some ''cros-chrome-guest'' \<and>
             cros_remote options \<noteq> None then
       Some (BrowserFinderException ''--remote requires --browser=cros-chrome or cros-chrome-guest.'')
     else None)"

text \<open>
  Lines 61 to 73: the state of the two nested loops (the lists \<open>browsers\<close> and
  \<open>default_browsers\<close>, and the calls made so far).
\<close>

record finder_state =
  browsers :: "possible_browser list"
  default_browsers :: "possible_browser list"
  calls :: "event list"

text \<open>Lines 69 to 73: one finder queried for one device.\<close>

definition query_finder ::
  "environment \<Rightarrow> browser_finder_options \<Rightarrow> device \<Rightarrow> finder \<Rightarrow> finder_state \<Rightarrow> finder_state" where
  "query_finder env options dev bf st =
    (let curr_browsers = finder_FindAllAvailableBrowsers env bf options dev;
         new_default_browser = finder_SelectDefaultBrowser env bf curr_browsers
     in \<lparr> browsers = browsers st @ curr_browsers,
          default_browsers =
            (case new_default_browser of
               None \<Rightarrow> default_browsers st
             | Some d \<Rightarrow> default_browsers st @ [d]),
          calls = calls st @ [FindAllAvailableBrowsers_call bf dev, SelectDefaultBrowser_call bf] \<rparr>)"

text \<open>
  Lines 66 to 73: the body of the inner loop. The finder's type list is consulted only when
  \<^verbatim>\<open>options.browser_type\<close> is truthy (neither \<open>None\<close> nor the empty string) and not
  \<^verbatim>\<open>'any'\<close>, since the \<^verbatim>\<open>and\<close> of the source short-circuits; a finder that does not
  list the requested type is skipped.
\<close>

definition finder_step ::
  "environment \<Rightarrow> browser_finder_options \<Rightarrow> device \<Rightarrow> finder \<Rightarrow> finder_state \<Rightarrow> finder_state" where
  "finder_step env options dev bf st =
    (case options_browser_type options of
       None \<Rightarrow> query_finder env options dev bf st
     | Some t \<Rightarrow>
         if t \<noteq> [] \<and> t \<noteq> ''any'' then
           (let st' = st \<lparr> calls := calls st @ [FindAllBrowserTypes_call bf] \<rparr>
            in if t \<notin> set (finder_FindAllBrowserTypes env bf options) then st'
               else query_finder env options dev bf st')
         else query_finder env options dev bf st)"

text \<open>Lines 61 to 73: the device enumeration and the two loops.\<close>

definition find_all ::
  "environment \<Rightarrow> browser_finder_options \<Rightarrow> finder_state" where
  "find_all env options =
     fold (\<lambda>dev st. fold (finder_step env options dev) BROWSER_FINDERS st)
       (GetDevicesMatchingOptions env options)
       \<lparr> browsers = [], default_browsers = [], calls = [GetDevicesMatchingOptions_call] \<rparr>"

text \<open>Lines 93 to 95: the message of \<^verbatim>\<open>BrowserTypeRequiredException\<close>.\<close>

definition browser_required_message :: "possible_browser list \<Rightarrow> string" where
  "browser_required_message bs =
     ''--browser must be specified. Available browsers:'' @ [CHR 0x0A] @
     join [CHR 0x0A] (sorted_set (map browser_type bs))"

text \<open>
  The body of \<^verbatim>\<open>FindBrowser\<close> (lines 43 to 119): the value returned or the exception
  raised, and the calls made to the collaborators. In the \<^verbatim>\<open>'any'\<close> branch
  \<^verbatim>\<open>min\<close> evaluates \<^verbatim>\<open>types.index(b.browser_type)\<close> for every candidate, so a
  candidate whose type is not listed raises \<^verbatim>\<open>ValueError\<close>.
\<close>

definition FindBrowser ::
  "environment \<Rightarrow> browser_finder_options \<Rightarrow> (error + possible_browser option) \<times> event list" where
  "FindBrowser env options =
    (if class_name options = ''_FakeBrowserFinderOptions'' then
       (Inr (fake_possible_browser options), [])
     else case check_options options of
       Some e \<Rightarrow> (Inl e, [])
     | None \<Rightarrow>
        (let st = find_all env options in
         case browsers st of
           [] \<Rightarrow> (Inr None, calls st)
         | b0 # bs \<Rightarrow>
            (case options_browser_type options of
               None \<Rightarrow>
                 (case default_browsers st of
                    d0 # ds \<Rightarrow>
                      (let default_browser = py_max last_modification_time d0 ds
                       in (Inr (Some default_browser),
                           calls st @ [UpdateExecutableIfNeeded_call default_browser]))
                  | [] \<Rightarrow>
                      if length (b0 # bs) = 1 then
                        (Inr (Some b0), calls st @ [UpdateExecutableIfNeeded_call b0])
                      else
                        (Inl (BrowserTypeRequiredException (browser_required_message (b0 # bs))),
                         calls st))
             | Some t \<Rightarrow>
                 if t = ''any'' then
                   (let types = FindAllBrowserTypes env options;
                        calls' = calls st @ map FindAllBrowserTypes_call BROWSER_FINDERS
                    in if list_ex (\<lambda>b. browser_type b \<notin> set types) (b0 # bs) then
                         (Inl ValueError, calls')
                       else
                         (let chosen_browser = py_min (\<lambda>b. index types (browser_type b)) b0 bs
                          in (Inr (Some chosen_browser),
                              calls' @ [UpdateExecutableIfNeeded_call chosen_browser])))
                 else
                   (case filter (\<lambda>b. browser_type b = t \<and> SupportsOptions b (browser_options options))
                           (b0 # bs) of
                      [] \<Rightarrow> (Inr None, calls st)
                    | m0 # ms \<Rightarrow>
                        (let chosen_browser = py_max last_modification_time m0 ms
                         in (Inr (Some chosen_browser),
                             calls st @ [UpdateExecutableIfNeeded_call chosen_browser]))))))"

section \<open>GetAllAvailableBrowsers and GetAllAvailableBrowserTypes\<close>

text \<open>
  The bodies of the two functions (lines 136 to 142 and 158 to 170). Both are memoized in the
  source; with collaborators that are functions of their arguments the memoized function
  returns what its body returns.
\<close>

definition GetAllAvailableBrowsers ::
  "environment \<Rightarrow> browser_finder_options \<Rightarrow> device \<Rightarrow> possible_browser list" where
  "GetAllAvailableBrowsers env options dev =
    (case dev of
       None \<Rightarrow> []
     | Some _ \<Rightarrow>
         concat (map (\<lambda>bf. finder_FindAllAvailableBrowsers env bf options dev) BROWSER_FINDERS))"

text \<open>Lines 165 to 169: the loop that adds \<^verbatim>\<open>'reference'\<close> to the set and breaks.\<close>

fun add_reference :: "possible_browser list \<Rightarrow> string list \<Rightarrow> string list" where
  "add_reference [] type_list = type_list"
| "add_reference (browser # rest) type_list =
     (if target_os browser = ''darwin'' \<or> startswith (target_os browser) ''linux''
         \<or> startswith (target_os browser) ''win''
      then List.insert ''reference'' type_list
      else add_reference rest type_list)"

text \<open>Lines 158 to 161: the candidates of all matching devices.\<close>

definition possible_browsers :: "environment \<Rightarrow> browser_finder_options \<Rightarrow> possible_browser list" where
  "possible_browsers env options =
     concat (map (GetAllAvailableBrowsers env options) (GetDevicesMatchingOptions env options))"

text \<open>The set \<^verbatim>\<open>type_list\<close> is kept as a list without duplicates.\<close>

definition GetAllAvailableBrowserTypes :: "environment \<Rightarrow> browser_finder_options \<Rightarrow> string list" where
  "GetAllAvailableBrowserTypes env options =
    (let type_list = remdups (map browser_type (possible_browsers env options))
     in sort (add_reference (possible_browsers env options) type_list))"

section \<open>The memoizing decorator\<close>

text \<open>The cache: the result stored for a configuration, if any.\<close>

type_synonym browser_cache = "browser_finder_options \<Rightarrow> possible_browser option option"

text \<open>
  Modelled from the spec: the decorator \<^verbatim>\<open>decorators.Cache\<close> applied to
  \<^verbatim>\<open>FindBrowser\<close> (line 30) is defined outside the given sources. The specification says
  that the cache is process-wide, is keyed on the configuration value (structural equality),
  has no invalidation, and that for an identical key it returns the previously computed
  result without invoking the backends again. A call that raises computes no result, and
  nothing is stored for it.
\<close>

definition FindBrowser_cached ::
  "environment \<Rightarrow> browser_cache \<Rightarrow> browser_finder_options \<Rightarrow>
     ((error + possible_browser option) \<times> event list) \<times> browser_cache" where
  "FindBrowser_cached env cache options =
    (case cache options of
       Some r \<Rightarrow> ((Inr r, []), cache)
     | None \<Rightarrow>
        (case FindBrowser env options of
           (Inr r, evs) \<Rightarrow> ((Inr r, evs), cache(options \<mapsto> r))
         | (Inl e, evs) \<Rightarrow> ((Inl e, evs), cache)))"

section \<open>Observations on a run\<close>

text \<open>The candidates whose \<^verbatim>\<open>UpdateExecutableIfNeeded\<close> hook a run invoked, in order.\<close>

fun hook_calls :: "event list \<Rightarrow> possible_browser list" where
  "hook_calls [] = []"
| "hook_calls (UpdateExecutableIfNeeded_call b # es) = b # hook_calls es"
| "hook_calls (GetDevicesMatchingOptions_call # es) = hook_calls es"
| "hook_calls (FindAllBrowserTypes_call bf # es) = hook_calls es"
| "hook_calls (FindAllAvailableBrowsers_call bf dev # es) = hook_calls es"
| "hook_calls (SelectDefaultBrowser_call bf # es) = hook_calls es"

text \<open>How often a run called \<^verbatim>\<open>FindAllAvailableBrowsers\<close> of the finder \<open>bf\<close>.\<close>

fun discovery_calls :: "finder \<Rightarrow> event list \<Rightarrow> nat" where
  "discovery_calls bf [] = 0"
| "discovery_calls bf (FindAllAvailableBrowsers_call bf' dev # es) =
     (if bf' = bf then Suc (discovery_calls bf es) else discovery_calls bf es)"
| "discovery_calls bf (GetDevicesMatchingOptions_call # es) = discovery_calls bf es"
| "discovery_calls bf (FindAllBrowserTypes_call bf' # es) = discovery_calls bf es"
| "discovery_calls bf (SelectDefaultBrowser_call bf' # es) = discovery_calls bf es"
| "discovery_calls bf (UpdateExecutableIfNeeded_call b # es) = discovery_calls bf es"

text \<open>
  The contract of a finder's \<^verbatim>\<open>SelectDefaultBrowser\<close>: the default it picks is one of
  the candidates it was given.
\<close>

definition default_among_candidates :: "environment \<Rightarrow> bool" where
  "default_among_candidates env =
     (\<forall>bf bs d. finder_SelectDefaultBrowser env bf bs = Some d \<longrightarrow> d \<in> set bs)"

text \<open>A target operating system for which the reference build exists (line 166).\<close>

definition reference_os :: "possible_browser \<Rightarrow> bool" where
  "reference_os browser =
     (target_os browser = ''darwin'' \<or> startswith (target_os browser) ''linux''
      \<or> startswith (target_os browser) ''win'')"

text \<open>A candidate with another \<^verbatim>\<open>last_modification_time\<close>.\<close>

definition retime :: "(possible_browser \<Rightarrow> int) \<Rightarrow> possible_browser \<Rightarrow> possible_browser" where
  "retime f b = b \<lparr> last_modification_time := f b \<rparr>"

section \<open>Example configurations\<close>

definition b100 :: possible_browser where
  "b100 = \<lparr> browser_id = 1, browser_type = ''release'', target_os = ''linux'',
            last_modification_time = 100, SupportsOptions = (\<lambda>_. True) \<rparr>"

definition b200 :: possible_browser where
  "b200 = \<lparr> browser_id = 2, browser_type = ''debug'', target_os = ''linux'',
            last_modification_time = 200, SupportsOptions = (\<lambda>_. True) \<rparr>"

text \<open>
  An environment whose finders report the candidates \<open>found\<close> on every device, whose
  \<^verbatim>\<open>SelectDefaultBrowser\<close> picks the first candidate (or none at all when
  \<open>with_defaults\<close> is false), and whose matching devices are \<open>devices\<close>.
\<close>

definition example_env ::
  "(finder \<Rightarrow> possible_browser list) \<Rightarrow> bool \<Rightarrow> device list \<Rightarrow> environment" where
  "example_env found with_defaults devices =
    \<lparr> finder_FindAllBrowserTypes =
        (\<lambda>bf _. case bf of
           desktop_browser_finder \<Rightarrow> [''exact'', ''release'', ''debug'']
         | android_browser_finder \<Rightarrow> [''android-chromium'']
         | cros_browser_finder \<Rightarrow> [''cros-chrome'', ''cros-chrome-guest'']),
      finder_FindAllAvailableBrowsers = (\<lambda>bf _ _. found bf),
      finder_SelectDefaultBrowser =
        (\<lambda>_ bs. if with_defaults then (case bs of [] \<Rightarrow> None | b # _ \<Rightarrow> Some b) else None),
      GetDevicesMatchingOptions = (\<lambda>_. devices) \<rparr>"

definition example_options :: "string option \<Rightarrow> browser_finder_options" where
  "example_options t =
    \<lparr> class_name = ''BrowserFinderOptions'', fake_possible_browser = None,
      options_browser_type = t, browser_executable = None, cros_remote = None,
      browser_options = 0 \<rparr>"

text \<open>The desktop finder reports \<open>b100\<close>, the android finder \<open>b200\<close>.\<close>

definition two_finders :: "finder \<Rightarrow> possible_browser list" where
  "two_finders bf =
     (case bf of
        desktop_browser_finder \<Rightarrow> [b100]
      | android_browser_finder \<Rightarrow> [b200]
      | cros_browser_finder \<Rightarrow> [])"

text \<open>Only the desktop finder reports a candidate.\<close>

definition one_finder :: "finder \<Rightarrow> possible_browser list" where
  "one_finder bf =
     (case bf of
        desktop_browser_finder \<Rightarrow> [b100]
      | android_browser_finder \<Rightarrow> []
      | cros_browser_finder \<Rightarrow> [])"

text \<open>Objects of the fake options class whose attributes the four checks would reject.\<close>

definition fake_exact_options :: browser_finder_options where
  "fake_exact_options =
    \<lparr> class_name = ''_FakeBrowserFinderOptions'', fake_possible_browser = Some b200,
      options_browser_type = Some ''exact'', browser_executable = None, cros_remote = None,
      browser_options = 0 \<rparr>"

definition fake_remote_options :: browser_finder_options where
  "fake_remote_options =
    \<lparr> class_name = ''_FakeBrowserFinderOptions'', fake_possible_browser = Some b100,
      options_browser_type = None, browser_executable = Some ''/usr/bin/chrome'',
      cros_remote = Some ''host'', browser_options = 0 \<rparr>"

text \<open>
  The desktop finder reports two candidates of the type release, and a third one of that type
  that does not support the options.
\<close>

definition b300 :: possible_browser where
  "b300 = \<lparr> browser_id = 3, browser_type = ''release'', target_os = ''linux'',
            last_modification_time = 300, SupportsOptions = (\<lambda>_. True) \<rparr>"

definition b400 :: possible_browser where
  "b400 = \<lparr> browser_id = 4, browser_type = ''release'', target_os = ''linux'',
            last_modification_time = 400, SupportsOptions = (\<lambda>_. False) \<rparr>"

definition three_releases :: "finder \<Rightarrow> possible_browser list" where
  "three_releases bf =
     (case bf of
        desktop_browser_finder \<Rightarrow> [b100, b300, b400]
      | android_browser_finder \<Rightarrow> [b200]
      | cros_browser_finder \<Rightarrow> [])"

text \<open>
  An environment whose finders report no candidate on the one matching device, while every
  \<^verbatim>\<open>SelectDefaultBrowser\<close> returns a browser all the same.
\<close>

definition default_without_candidates :: environment where
  "default_without_candidates =
    \<lparr> finder_FindAllBrowserTypes = (\<lambda>_ _. []),
      finder_FindAllAvailableBrowsers = (\<lambda>_ _ _. []),
      finder_SelectDefaultBrowser = (\<lambda>_ _. Some b200),
      GetDevicesMatchingOptions = (\<lambda>_. [None]) \<rparr>"

section \<open>Properties of the built-ins and of the loops\<close>

lemmas example_defs =
  example_env_def example_options_def two_finders_def one_finder_def three_releases_def
  b100_def b200_def b300_def b400_def

lemmas finder_defs =
  FindBrowser_def check_options_def find_all_def finder_step_def query_finder_def
  BROWSER_FINDERS_def FindAllBrowserTypes_def Let_def


lemma py_max_split:
  "(py_max key b ys = b \<and> (\<forall>x\<in>set ys. key x \<le> key b)) \<or>
   (\<exists>pre post. ys = pre @ py_max key b ys # post \<and> key b < key (py_max key b ys) \<and>
      (\<forall>x\<in>set pre. key x < key (py_max key b ys)) \<and>
      (\<forall>x\<in>set post. key x \<le> key (py_max key b ys)))"
proof (induction ys arbitrary: b)
  case Nil
  show ?case by simp
next
  case (Cons y ys)
  let ?b' = "if key b < key y then y else b"
  let ?m = "py_max key ?b' ys"
  have m: "py_max key b (y # ys) = ?m" by simp
  from Cons.IH [of ?b'] consider
      (keep) "?m = ?b'" "\<forall>x\<in>set ys. key x \<le> key ?b'"
    | (later) pre post where "ys = pre @ ?m # post" "key ?b' < key ?m"
        "\<forall>x\<in>set pre. key x < key ?m" "\<forall>x\<in>set post. key x \<le> key ?m"
    by blast
  then show ?case
  proof cases
    case keep
    show ?thesis
    proof (cases "key b < key y")
      case True
      with keep have "y # ys = [] @ ?m # ys" "key b < key ?m" "\<forall>x\<in>set ys. key x \<le> key ?m"
        by simp_all
      then show ?thesis unfolding m by (intro disjI2 exI [of _ "[]"] exI [of _ ys]) simp
    next
      case False
      with keep show ?thesis unfolding m by (intro disjI1) auto
    qed
  next
    case later
    have "y # ys = (y # pre) @ ?m # post" using later(1) by simp
    moreover have "key b < key ?m" using later(2) by (auto split: if_splits)
    moreover have "\<forall>x\<in>set (y # pre). key x < key ?m"
      using later(2,3) by (auto split: if_splits)
    ultimately show ?thesis unfolding m using later(4)
      by (intro disjI2 exI [of _ "y # pre"] exI [of _ post]) simp
  qed
qed

lemma py_max_first:
  "\<exists>pre post. b # ys = pre @ py_max key b ys # post \<and>
      (\<forall>x\<in>set pre. key x < key (py_max key b ys)) \<and>
      (\<forall>x\<in>set post. key x \<le> key (py_max key b ys))"
proof -
  from py_max_split [of key b ys] show ?thesis
  proof
    assume a: "py_max key b ys = b \<and> (\<forall>x\<in>set ys. key x \<le> key b)"
    then have "b # ys = [] @ py_max key b ys # ys" by simp
    with a show ?thesis by (intro exI [of _ "[]"] exI [of _ ys]) simp
  next
    assume "\<exists>pre post. ys = pre @ py_max key b ys # post \<and> key b < key (py_max key b ys) \<and>
      (\<forall>x\<in>set pre. key x < key (py_max key b ys)) \<and>
      (\<forall>x\<in>set post. key x \<le> key (py_max key b ys))"
    then obtain pre post where p: "ys = pre @ py_max key b ys # post"
      "key b < key (py_max key b ys)" "\<forall>x\<in>set pre. key x < key (py_max key b ys)"
      "\<forall>x\<in>set post. key x \<le> key (py_max key b ys)" by blast
    have "b # ys = (b # pre) @ py_max key b ys # post" using p(1) by simp
    with p show ?thesis by (intro exI [of _ "b # pre"] exI [of _ post]) simp
  qed
qed

lemma py_max_mem: "py_max key b ys \<in> set (b # ys)"
  by (induction ys arbitrary: b) auto

lemma py_max_ge: "x \<in> set (b # ys) \<Longrightarrow> key x \<le> key (py_max key b ys)"
proof -
  assume x: "x \<in> set (b # ys)"
  obtain pre post where p: "b # ys = pre @ py_max key b ys # post"
      "\<forall>x\<in>set pre. key x < key (py_max key b ys)"
      "\<forall>x\<in>set post. key x \<le> key (py_max key b ys)"
    using py_max_first [of b ys key] by blast
  from x have "x \<in> set pre \<or> x = py_max key b ys \<or> x \<in> set post"
    unfolding p(1) by auto
  with p(2,3) show ?thesis by auto
qed


lemma py_min_split:
  "(py_min key b ys = b \<and> (\<forall>x\<in>set ys. key b \<le> key x)) \<or>
   (\<exists>pre post. ys = pre @ py_min key b ys # post \<and> key (py_min key b ys) < key b \<and>
      (\<forall>x\<in>set pre. key (py_min key b ys) < key x) \<and>
      (\<forall>x\<in>set post. key (py_min key b ys) \<le> key x))"
proof (induction ys arbitrary: b)
  case Nil
  show ?case by simp
next
  case (Cons y ys)
  let ?b' = "if key y < key b then y else b"
  let ?m = "py_min key ?b' ys"
  have m: "py_min key b (y # ys) = ?m" by simp
  from Cons.IH [of ?b'] consider
      (keep) "?m = ?b'" "\<forall>x\<in>set ys. key ?b' \<le> key x"
    | (later) pre post where "ys = pre @ ?m # post" "key ?m < key ?b'"
        "\<forall>x\<in>set pre. key ?m < key x" "\<forall>x\<in>set post. key ?m \<le> key x"
    by blast
  then show ?case
  proof cases
    case keep
    show ?thesis
    proof (cases "key y < key b")
      case True
      with keep have "y # ys = [] @ ?m # ys" "key ?m < key b" "\<forall>x\<in>set ys. key ?m \<le> key x"
        by simp_all
      then show ?thesis unfolding m by (intro disjI2 exI [of _ "[]"] exI [of _ ys]) simp
    next
      case False
      with keep show ?thesis unfolding m by (intro disjI1) auto
    qed
  next
    case later
    have "y # ys = (y # pre) @ ?m # post" using later(1) by simp
    moreover have "key ?m < key b" using later(2) by (auto split: if_splits)
    moreover have "\<forall>x\<in>set (y # pre). key ?m < key x"
      using later(2,3) by (auto split: if_splits)
    ultimately show ?thesis unfolding m using later(4)
      by (intro disjI2 exI [of _ "y # pre"] exI [of _ post]) simp
  qed
qed

lemma py_min_first:
  "\<exists>pre post. b # ys = pre @ py_min key b ys # post \<and>
      (\<forall>x\<in>set pre. key (py_min key b ys) < key x) \<and>
      (\<forall>x\<in>set post. key (py_min key b ys) \<le> key x)"
proof -
  from py_min_split [of key b ys] show ?thesis
  proof
    assume a: "py_min key b ys = b \<and> (\<forall>x\<in>set ys. key b \<le> key x)"
    then have "b # ys = [] @ py_min key b ys # ys" by simp
    with a show ?thesis by (intro exI [of _ "[]"] exI [of _ ys]) simp
  next
    assume "\<exists>pre post. ys = pre @ py_min key b ys # post \<and> key (py_min key b ys) < key b \<and>
      (\<forall>x\<in>set pre. key (py_min key b ys) < key x) \<and>
      (\<forall>x\<in>set post. key (py_min key b ys) \<le> key x)"
    then obtain pre post where p: "ys = pre @ py_min key b ys # post"
      "key (py_min key b ys) < key b" "\<forall>x\<in>set pre. key (py_min key b ys) < key x"
      "\<forall>x\<in>set post. key (py_min key b ys) \<le> key x" by blast
    have "b # ys = (b # pre) @ py_min key b ys # post" using p(1) by simp
    with p show ?thesis by (intro exI [of _ "b # pre"] exI [of _ post]) simp
  qed
qed

lemma py_min_map:
  "(\<And>x. key' (g x) = key x) \<Longrightarrow> py_min key' (g b) (map g ys) = g (py_min key b ys)"
  by (induction ys arbitrary: b) auto

lemma index_less: "x \<in> set xs \<Longrightarrow> index xs x < length xs"
  by (induction xs) auto

lemma index_nth: "x \<in> set xs \<Longrightarrow> xs ! index xs x = x"
  by (induction xs) auto

lemma index_first: "j < index xs x \<Longrightarrow> xs ! j \<noteq> x"
proof (induction xs arbitrary: j)
  case Nil
  then show ?case by simp
next
  case (Cons y ys)
  then show ?case by (cases j) (auto split: if_splits)
qed

lemma hook_calls_append: "hook_calls (xs @ ys) = hook_calls xs @ hook_calls ys"
  by (induction xs rule: hook_calls.induct) auto

lemma fold_invariant:
  "P s \<Longrightarrow> (\<And>x s. P s \<Longrightarrow> P (f x s)) \<Longrightarrow> P (fold f xs s)"
  by (induction xs arbitrary: s) auto

lemma hook_calls_query_finder:
  "hook_calls (calls st) = [] \<Longrightarrow> hook_calls (calls (query_finder env options dev bf st)) = []"
  by (simp add: query_finder_def Let_def hook_calls_append)

lemma hook_calls_finder_step:
  "hook_calls (calls st) = [] \<Longrightarrow> hook_calls (calls (finder_step env options dev bf st)) = []"
  by (auto simp: finder_step_def Let_def hook_calls_append hook_calls_query_finder
      split: option.splits)

lemma hook_calls_find_all: "hook_calls (calls (find_all env options)) = []"
  unfolding find_all_def
  by (rule fold_invariant, simp, rule fold_invariant, assumption, rule hook_calls_finder_step)

lemma hook_calls_types: "hook_calls (map FindAllBrowserTypes_call bfs) = []"
  by (induction bfs) auto

lemma defaults_query_finder:
  "default_among_candidates env \<Longrightarrow> set (default_browsers st) \<subseteq> set (browsers st) \<Longrightarrow>
   set (default_browsers (query_finder env options dev bf st))
     \<subseteq> set (browsers (query_finder env options dev bf st))"
  by (auto simp: query_finder_def Let_def default_among_candidates_def split: option.splits)

lemma defaults_finder_step:
  "default_among_candidates env \<Longrightarrow> set (default_browsers st) \<subseteq> set (browsers st) \<Longrightarrow>
   set (default_browsers (finder_step env options dev bf st))
     \<subseteq> set (browsers (finder_step env options dev bf st))"
  using defaults_query_finder [of env st options dev bf]
    defaults_query_finder [of env "st \<lparr> calls := calls st @ [FindAllBrowserTypes_call bf] \<rparr>" options dev bf]
  by (auto simp: finder_step_def Let_def split: option.splits)

lemma defaults_find_all:
  assumes "default_among_candidates env"
  shows "set (default_browsers (find_all env options)) \<subseteq> set (browsers (find_all env options))"
  unfolding find_all_def
  by (rule fold_invariant, simp, rule fold_invariant, assumption,
      rule defaults_finder_step [OF assms])

lemma find_all_calls_hd:
  "\<exists>evs. calls (find_all env options) = GetDevicesMatchingOptions_call # evs"
proof -
  have step: "\<And>dev bf st. (\<exists>evs. calls st = GetDevicesMatchingOptions_call # evs) \<Longrightarrow>
      (\<exists>evs. calls (finder_step env options dev bf st) = GetDevicesMatchingOptions_call # evs)"
    by (auto simp: finder_step_def query_finder_def Let_def split: option.splits)
  show ?thesis
    unfolding find_all_def
    by (rule fold_invariant, simp, rule fold_invariant, assumption, rule step)
qed

lemma FindBrowser_not_config_error:
  assumes "class_name options = ''_FakeBrowserFinderOptions'' \<or> check_options options = None"
  shows "fst (FindBrowser env options) \<noteq> Inl (BrowserFinderException msg)"
  using assms
  by (auto simp: FindBrowser_def Let_def split: list.splits option.splits)

lemma check_options_iff:
  "(check_options options = None) =
   (\<not> (options_browser_type options = Some ''exact'' \<and> browser_executable options = None) \<and>
    \<not> (options_browser_type options \<noteq> Some ''exact'' \<and> browser_executable options \<noteq> None) \<and>
    \<not> (options_browser_type options = Some ''cros-chrome'' \<and> cros_remote options = None) \<and>
    \<not> (options_browser_type options \<noteq> Some ''cros-chrome'' \<and>
       options_browser_type options \<noteq> Some ''cros-chrome-guest'' \<and> cros_remote options \<noteq> None))"
  by (auto simp: check_options_def)

lemma check_options_Some:
  "check_options options = Some e \<Longrightarrow> \<exists>msg. e = BrowserFinderException msg"
  by (auto simp: check_options_def split: if_splits)

lemma defaults_nonempty_browsers:
  assumes "default_among_candidates env" "default_browsers (find_all env options) \<noteq> []"
  shows "browsers (find_all env options) \<noteq> []"
  using defaults_find_all [OF assms(1), of options] assms(2) by auto

lemma FindBrowser_default:
  assumes "class_name options \<noteq> ''_FakeBrowserFinderOptions''"
    and "check_options options = None"
    and "options_browser_type options = None"
    and "browsers (find_all env options) \<noteq> []"
    and "default_browsers (find_all env options) = d0 # ds"
  shows "FindBrowser env options =
      (Inr (Some (py_max last_modification_time d0 ds)),
       calls (find_all env options) @
         [UpdateExecutableIfNeeded_call (py_max last_modification_time d0 ds)])"
  using assms by (simp add: FindBrowser_def Let_def split: list.splits)

lemma example_env_default_among: "default_among_candidates (example_env found w devs)"
  by (auto simp: default_among_candidates_def example_env_def split: list.splits if_splits)

lemma two_defaults:
  "default_browsers (find_all (example_env two_finders True [None]) (example_options None))
     = [b100, b200]"
  by (simp add: finder_defs example_env_def example_options_def two_finders_def)

lemma fold_related:
  "R s t \<Longrightarrow> (\<And>x s t. R s t \<Longrightarrow> R (f x s) (g x t)) \<Longrightarrow> R (fold f xs s) (fold g xs t)"
  by (induction xs arbitrary: s t) auto

lemma browser_type_retime: "browser_type (retime f b) = browser_type b"
  by (simp add: retime_def)

lemma find_all_retime:
  assumes any: "options_browser_type options = Some ''any''"
    and devs: "GetDevicesMatchingOptions env2 options = GetDevicesMatchingOptions env options"
    and avail: "\<And>bf dev. finder_FindAllAvailableBrowsers env2 bf options dev =
        map (retime f) (finder_FindAllAvailableBrowsers env bf options dev)"
  shows "browsers (find_all env2 options) = map (retime f) (browsers (find_all env options))"
proof -
  let ?R = "\<lambda>s t. browsers t = map (retime f) (browsers s)"
  have step: "\<And>dev bf s t. ?R s t \<Longrightarrow>
      ?R (finder_step env options dev bf s) (finder_step env2 options dev bf t)"
    using any by (simp add: finder_step_def query_finder_def Let_def avail)
  have inner: "\<And>dev s t. ?R s t \<Longrightarrow>
      ?R (fold (finder_step env options dev) BROWSER_FINDERS s)
         (fold (finder_step env2 options dev) BROWSER_FINDERS t)"
    by (rule fold_related [where R = ?R], assumption, rule step)
  show ?thesis
    unfolding find_all_def devs
    by (rule fold_related [where R = ?R], simp, rule inner)
qed

lemma FindBrowser_any:
  assumes "class_name options \<noteq> ''_FakeBrowserFinderOptions''"
    and "check_options options = None"
    and "options_browser_type options = Some ''any''"
  shows "fst (FindBrowser env options) =
     (case browsers (find_all env options) of
        [] \<Rightarrow> Inr None
      | b0 # bs \<Rightarrow>
          if list_ex (\<lambda>b. browser_type b \<notin> set (FindAllBrowserTypes env options)) (b0 # bs)
          then Inl ValueError
          else Inr (Some (py_min (\<lambda>b. index (FindAllBrowserTypes env options) (browser_type b)) b0 bs)))"
  using assms by (simp add: FindBrowser_def Let_def split: list.splits)

lemma FindBrowser_any_retime:
  assumes nf: "class_name options \<noteq> ''_FakeBrowserFinderOptions''"
    and ok: "check_options options = None"
    and any: "options_browser_type options = Some ''any''"
    and types: "\<And>bf. finder_FindAllBrowserTypes env2 bf options = finder_FindAllBrowserTypes env bf options"
    and devs: "GetDevicesMatchingOptions env2 options = GetDevicesMatchingOptions env options"
    and avail: "\<And>bf dev. finder_FindAllAvailableBrowsers env2 bf options dev =
        map (retime f) (finder_FindAllAvailableBrowsers env bf options dev)"
  shows "fst (FindBrowser env2 options) =
     map_sum id (map_option (retime f)) (fst (FindBrowser env options))"
proof -
  have ty: "FindAllBrowserTypes env2 options = FindAllBrowserTypes env options"
    by (simp add: FindAllBrowserTypes_def types)
  have bs: "browsers (find_all env2 options) = map (retime f) (browsers (find_all env options))"
    using find_all_retime [OF any devs avail] .
  show ?thesis
  proof (cases "browsers (find_all env options)")
    case Nil
    then show ?thesis
      unfolding FindBrowser_any [OF nf ok any] bs by simp
  next
    case (Cons b0 rest)
    have ex: "list_ex (\<lambda>b. browser_type b \<notin> set (FindAllBrowserTypes env options))
                (map (retime f) (b0 # rest))
            = list_ex (\<lambda>b. browser_type b \<notin> set (FindAllBrowserTypes env options)) (b0 # rest)"
      by (simp add: list_ex_iff browser_type_retime)
    have mn: "py_min (\<lambda>b. index (FindAllBrowserTypes env options) (browser_type b))
                (retime f b0) (map (retime f) rest)
            = retime f (py_min (\<lambda>b. index (FindAllBrowserTypes env options) (browser_type b)) b0 rest)"
      by (rule py_min_map) (simp add: browser_type_retime)
    show ?thesis
      unfolding FindBrowser_any [OF nf ok any] bs ty Cons
      using ex mn by simp
  qed
qed

lemma add_reference_set:
  "set (add_reference bs type_list) =
     set type_list \<union> (if \<exists>b\<in>set bs. reference_os b then {''reference''} else {})"
  by (induction bs) (auto simp: reference_os_def)

lemma add_reference_distinct:
  "distinct type_list \<Longrightarrow> distinct (add_reference bs type_list)"
  by (induction bs) auto

lemma possible_browsers_devices:
  "concat (map (GetAllAvailableBrowsers env options) devs) =
     concat (map (\<lambda>dev. concat (map (\<lambda>bf. finder_FindAllAvailableBrowsers env bf options dev)
                                   BROWSER_FINDERS))
              (filter (\<lambda>dev. dev \<noteq> None) devs))"
  by (induction devs) (auto simp: GetAllAvailableBrowsers_def split: option.splits)

lemma count_list_distinct: "distinct xs \<Longrightarrow> count_list xs x = (if x \<in> set xs then 1 else 0)"
  by (induction xs) auto

lemma discovery_calls_append:
  "discovery_calls bf (xs @ ys) = discovery_calls bf xs + discovery_calls bf ys"
  by (induction bf xs rule: discovery_calls.induct) auto

lemma discovery_calls_types: "discovery_calls bf (map FindAllBrowserTypes_call bfs) = 0"
  by (induction bfs) auto

lemma discovery_calls_finder_step:
  "discovery_calls bf (calls (finder_step env options dev bf' st))
     \<le> discovery_calls bf (calls st) + (if bf' = bf then 1 else 0)"
  by (auto simp: finder_step_def query_finder_def Let_def discovery_calls_append
      split: option.splits)

lemma discovery_calls_finders:
  "discovery_calls bf (calls (fold (finder_step env options dev) BROWSER_FINDERS st))
     \<le> discovery_calls bf (calls st) + 1"
proof -
  let ?s1 = "finder_step env options dev desktop_browser_finder st"
  let ?s2 = "finder_step env options dev android_browser_finder ?s1"
  let ?s3 = "finder_step env options dev cros_browser_finder ?s2"
  have f: "fold (finder_step env options dev) BROWSER_FINDERS st = ?s3"
    by (simp add: BROWSER_FINDERS_def)
  have a: "discovery_calls bf (calls ?s1)
      \<le> discovery_calls bf (calls st) + (if desktop_browser_finder = bf then 1 else 0)"
    by (rule discovery_calls_finder_step)
  have b: "discovery_calls bf (calls ?s2)
      \<le> discovery_calls bf (calls ?s1) + (if android_browser_finder = bf then 1 else 0)"
    by (rule discovery_calls_finder_step)
  have c: "discovery_calls bf (calls ?s3)
      \<le> discovery_calls bf (calls ?s2) + (if cros_browser_finder = bf then 1 else 0)"
    by (rule discovery_calls_finder_step)
  from a b c show ?thesis unfolding f by (cases bf) simp_all
qed

lemma discovery_calls_devices:
  "discovery_calls bf
     (calls (fold (\<lambda>dev st. fold (finder_step env options dev) BROWSER_FINDERS st) devs st))
   \<le> discovery_calls bf (calls st) + length devs"
proof (induction devs arbitrary: st)
  case Nil
  show ?case by simp
next
  case (Cons dev devs)
  have "discovery_calls bf
     (calls (fold (\<lambda>dev st. fold (finder_step env options dev) BROWSER_FINDERS st) (dev # devs) st))
     \<le> discovery_calls bf (calls (fold (finder_step env options dev) BROWSER_FINDERS st))
         + length devs"
    using Cons.IH [of "fold (finder_step env options dev) BROWSER_FINDERS st"] by simp
  also have "\<dots> \<le> discovery_calls bf (calls st) + 1 + length devs"
    using discovery_calls_finders [of bf env options dev st] by simp
  finally show ?case by simp
qed

lemma discovery_calls_find_all:
  "discovery_calls bf (calls (find_all env options))
     \<le> length (GetDevicesMatchingOptions env options)"
  using discovery_calls_devices [of bf env options "GetDevicesMatchingOptions env options"
    "\<lparr> browsers = [], default_browsers = [], calls = [GetDevicesMatchingOptions_call] \<rparr>"]
  by (simp add: find_all_def)

lemma discovery_calls_FindBrowser:
  "discovery_calls bf (snd (FindBrowser env options))
     \<le> length (GetDevicesMatchingOptions env options)"
  using discovery_calls_find_all [of bf env options]
  by (auto simp: FindBrowser_def Let_def discovery_calls_append discovery_calls_types
      split: list.splits option.splits)

lemma enumerates_devices_iff:
  "GetDevicesMatchingOptions_call \<in> set (snd (FindBrowser env options)) \<longleftrightarrow>
   class_name options \<noteq> ''_FakeBrowserFinderOptions'' \<and> check_options options = None"
proof (cases "class_name options \<noteq> ''_FakeBrowserFinderOptions'' \<and> check_options options = None")
  case True
  obtain evs where "calls (find_all env options) = GetDevicesMatchingOptions_call # evs"
    using find_all_calls_hd by blast
  with True show ?thesis
    by (auto simp: FindBrowser_def Let_def split: list.splits option.splits)
next
  case False
  then show ?thesis by (auto simp: FindBrowser_def)
qed

section \<open>The claims\<close>

subsection \<open>Claim C1\<close>

text \<open>
  Claim C1, amended. \<^verbatim>\<open>FindBrowser\<close> raises the \<^verbatim>\<open>BrowserFinderException\<close> of the
  four checks exactly when the class of the options object is not
  \<^verbatim>\<open>_FakeBrowserFinderOptions\<close> and one of the four conditions holds: \<^verbatim>\<open>browser_type\<close>
  is \<^verbatim>\<open>'exact'\<close> with no \<^verbatim>\<open>browser_executable\<close>, \<^verbatim>\<open>browser_type\<close> is not
  \<^verbatim>\<open>'exact'\<close> with a \<^verbatim>\<open>browser_executable\<close>, \<^verbatim>\<open>browser_type\<close> is
  \<^verbatim>\<open>'cros-chrome'\<close> with no \<^verbatim>\<open>cros_remote\<close>, or \<^verbatim>\<open>browser_type\<close> is neither
  ChromeOS variant with a \<^verbatim>\<open>cros_remote\<close>. When it raises, no device has been enumerated
  and no finder has been called.
\<close>

theorem configuration_error_iff:
  "((\<exists>msg. fst (FindBrowser env options) = Inl (BrowserFinderException msg)) \<longleftrightarrow>
      class_name options \<noteq> ''_FakeBrowserFinderOptions'' \<and>
      ((options_browser_type options = Some ''exact'' \<and> browser_executable options = None) \<or>
       (options_browser_type options \<noteq> Some ''exact'' \<and> browser_executable options \<noteq> None) \<or>
       (options_browser_type options = Some ''cros-chrome'' \<and> cros_remote options = None) \<or>
       (options_browser_type options \<noteq> Some ''cros-chrome'' \<and>
        options_browser_type options \<noteq> Some ''cros-chrome-guest'' \<and> cros_remote options \<noteq> None)))
   \<and> ((\<exists>msg. fst (FindBrowser env options) = Inl (BrowserFinderException msg)) \<longrightarrow>
        snd (FindBrowser env options) = [])"
proof (cases "class_name options = ''_FakeBrowserFinderOptions''")
  case True
  then show ?thesis using FindBrowser_not_config_error [of options env] by simp
next
  case nf: False
  show ?thesis
  proof (cases "check_options options")
    case None
    then have "\<And>msg. fst (FindBrowser env options) \<noteq> Inl (BrowserFinderException msg)"
      using FindBrowser_not_config_error [of options env] by simp
    moreover note None [unfolded check_options_iff]
    ultimately show ?thesis using nf by blast
  next
    case (Some e)
    then obtain msg where e: "e = BrowserFinderException msg"
      using check_options_Some by blast
    have fb: "FindBrowser env options = (Inl (BrowserFinderException msg), [])"
      using nf Some e by (simp add: FindBrowser_def)
    have "check_options options \<noteq> None" using Some by simp
    note this [unfolded check_options_iff]
    with fb nf show ?thesis by auto
  qed
qed

text \<open>An options object of the ordinary class asking for \<^verbatim>\<open>'exact'\<close> with no executable.\<close>

theorem configuration_error_iff_witness:
  "(\<exists>msg. fst (FindBrowser (example_env two_finders True [None]) (example_options (Some ''exact'')))
       = Inl (BrowserFinderException msg)) \<and>
   snd (FindBrowser (example_env two_finders True [None]) (example_options (Some ''exact''))) = []"
  using configuration_error_iff
    [of "example_env two_finders True [None]" "example_options (Some ''exact'')"]
  by (simp add: example_options_def)

text \<open>
  Claim C1 as stated fails for an object of the fake options class: with
  \<^verbatim>\<open>browser_type == 'exact'\<close> and no \<^verbatim>\<open>browser_executable\<close> the pre-built browser is
  returned and nothing is raised.
\<close>

theorem fake_options_not_validated:
  "class_name fake_exact_options = ''_FakeBrowserFinderOptions'' \<and>
   options_browser_type fake_exact_options = Some ''exact'' \<and>
   browser_executable fake_exact_options = None \<and>
   FindBrowser (example_env two_finders True [None]) fake_exact_options = (Inr (Some b200), [])"
  by (simp add: FindBrowser_def fake_exact_options_def)

subsection \<open>Claim C2\<close>

text \<open>
  Claim C2, amended. For options that reach the aggregation (not of the fake class, accepted by
  the four checks) with \<^verbatim>\<open>browser_type\<close> unset, a non-empty list of aggregated candidates
  and a non-empty list of defaults: \<^verbatim>\<open>FindBrowser\<close> returns a default with the maximum
  \<^verbatim>\<open>last_modification_time\<close>, and the first such one in the order in which the defaults
  were collected (every default before it is strictly older, every default after it is not
  newer).
\<close>

theorem default_browser_most_recent:
  assumes "class_name options \<noteq> ''_FakeBrowserFinderOptions''"
    and "check_options options = None"
    and "options_browser_type options = None"
    and "browsers (find_all env options) \<noteq> []"
    and "default_browsers (find_all env options) \<noteq> []"
  shows "\<exists>d pre post.
      fst (FindBrowser env options) = Inr (Some d) \<and>
      default_browsers (find_all env options) = pre @ d # post \<and>
      (\<forall>x\<in>set pre. last_modification_time x < last_modification_time d) \<and>
      (\<forall>x\<in>set post. last_modification_time x \<le> last_modification_time d)"
proof -
  obtain d0 ds where ds: "default_browsers (find_all env options) = d0 # ds"
    using assms(5) by (cases "default_browsers (find_all env options)") auto
  have "fst (FindBrowser env options) = Inr (Some (py_max last_modification_time d0 ds))"
    using FindBrowser_default [OF assms(1-4) ds] by simp
  with py_max_first [of d0 ds last_modification_time] show ?thesis
    unfolding ds by blast
qed

text \<open>Two defaults with the timestamps 100 and 200: the one with 200 is returned.\<close>

theorem default_browser_most_recent_witness:
  "browsers (find_all (example_env two_finders True [None]) (example_options None))
     = [b100, b200] \<and>
   default_browsers (find_all (example_env two_finders True [None]) (example_options None))
     = [b100, b200] \<and>
   last_modification_time b100 = 100 \<and> last_modification_time b200 = 200 \<and>
   fst (FindBrowser (example_env two_finders True [None]) (example_options None))
     = Inr (Some b200)"
proof -
  let ?env = "example_env two_finders True [None]"
  let ?options = "example_options None"
  have h1: "class_name ?options \<noteq> ''_FakeBrowserFinderOptions''"
    by (simp add: example_options_def)
  have h2: "check_options ?options = None"
    by (simp add: example_options_def check_options_def)
  have h3: "options_browser_type ?options = None"
    by (simp add: example_options_def)
  have bs: "browsers (find_all ?env ?options) = [b100, b200]"
    by (simp add: finder_defs example_env_def example_options_def two_finders_def)
  have h4: "browsers (find_all ?env ?options) \<noteq> []"
    by (simp add: bs)
  have h5: "default_browsers (find_all ?env ?options) \<noteq> []"
    by (simp add: two_defaults)
  from default_browser_most_recent [OF h1 h2 h3 h4 h5]
  obtain d pre post where r: "fst (FindBrowser ?env ?options) = Inr (Some d)"
    and split: "[b100, b200] = pre @ d # post"
    and later: "\<forall>x\<in>set post. last_modification_time x \<le> last_modification_time d"
    unfolding two_defaults by blast
  have "d = b200"
  proof (cases pre)
    case Nil
    with split have "d = b100" "post = [b200]" by simp_all
    with later show ?thesis by (simp add: b100_def b200_def)
  next
    case (Cons p ps)
    with split show ?thesis by (cases ps) simp_all
  qed
  with r bs show ?thesis by (simp add: two_defaults b100_def b200_def)
qed

text \<open>
  Claim C2 as stated fails when the list of defaults is non-empty and no candidate was
  aggregated: with finders that report no candidate and still return a default, the options
  are of the ordinary class, pass the checks and leave \<^verbatim>\<open>browser_type\<close> unset, the list of
  defaults holds three browsers, and \<^verbatim>\<open>FindBrowser\<close> returns \<open>None\<close> (line 75 comes before
  the defaults are looked at).
\<close>

theorem defaults_without_candidates_none:
  "class_name (example_options None) \<noteq> ''_FakeBrowserFinderOptions'' \<and>
   check_options (example_options None) = None \<and>
   options_browser_type (example_options None) = None \<and>
   browsers (find_all default_without_candidates (example_options None)) = [] \<and>
   default_browsers (find_all default_without_candidates (example_options None))
     = [b200, b200, b200] \<and>
   fst (FindBrowser default_without_candidates (example_options None)) = Inr None"
  by (simp add: finder_defs default_without_candidates_def example_options_def)

subsection \<open>Claim C3\<close>

text \<open>
  Claim C3. For options that reach the aggregation with \<^verbatim>\<open>browser_type\<close> unset and no
  default: a single aggregated candidate is returned; with two or more candidates (in
  particular with two distinct type names) \<^verbatim>\<open>BrowserTypeRequiredException\<close> is raised,
  and its message lists, one per line after the heading, the type names of all candidates
  without duplicates in ascending order.
\<close>

theorem no_default_single_or_type_required:
  assumes "class_name options \<noteq> ''_FakeBrowserFinderOptions''"
    and "check_options options = None"
    and "options_browser_type options = None"
    and "default_browsers (find_all env options) = []"
  shows "(\<forall>b. browsers (find_all env options) = [b] \<longrightarrow>
            fst (FindBrowser env options) = Inr (Some b)) \<and>
         (2 \<le> length (browsers (find_all env options)) \<longrightarrow>
            fst (FindBrowser env options) =
              Inl (BrowserTypeRequiredException
                (''--browser must be specified. Available browsers:'' @ [CHR 0x0A] @
                 join [CHR 0x0A] (sorted_set (map browser_type (browsers (find_all env options))))))) \<and>
         sorted (sorted_set (map browser_type (browsers (find_all env options)))) \<and>
         distinct (sorted_set (map browser_type (browsers (find_all env options)))) \<and>
         set (sorted_set (map browser_type (browsers (find_all env options))))
           = browser_type ` set (browsers (find_all env options))"
proof -
  have one: "\<And>b. browsers (find_all env options) = [b] \<Longrightarrow>
      fst (FindBrowser env options) = Inr (Some b)"
    using assms by (simp add: FindBrowser_def Let_def)
  have many: "2 \<le> length (browsers (find_all env options)) \<Longrightarrow>
      fst (FindBrowser env options) =
        Inl (BrowserTypeRequiredException
          (''--browser must be specified. Available browsers:'' @ [CHR 0x0A] @
           join [CHR 0x0A] (sorted_set (map browser_type (browsers (find_all env options))))))"
    using assms
    by (cases "browsers (find_all env options)")
       (auto simp: FindBrowser_def Let_def browser_required_message_def)
  have "sorted (sorted_set (map browser_type (browsers (find_all env options))))"
    and "distinct (sorted_set (map browser_type (browsers (find_all env options))))"
    and "set (sorted_set (map browser_type (browsers (find_all env options))))
           = browser_type ` set (browsers (find_all env options))"
    by (simp_all add: sorted_set_def)
  with one many show ?thesis by blast
qed

text \<open>One candidate and no default; two candidates of the types release and debug and no default.\<close>

theorem no_default_single_or_type_required_witness:
  "fst (FindBrowser (example_env one_finder False [None]) (example_options None))
     = Inr (Some b100) \<and>
   fst (FindBrowser (example_env two_finders False [None]) (example_options None))
     = Inl (BrowserTypeRequiredException
         (''--browser must be specified. Available browsers:'' @ [CHR 0x0A] @
          ''debug'' @ [CHR 0x0A] @ ''release''))"
proof -
  let ?options = "example_options None"
  have h1: "class_name ?options \<noteq> ''_FakeBrowserFinderOptions''"
    by (simp add: example_options_def)
  have h2: "check_options ?options = None"
    by (simp add: example_options_def check_options_def)
  have h3: "options_browser_type ?options = None"
    by (simp add: example_options_def)
  have st1: "find_all (example_env one_finder False [None]) ?options =
      \<lparr> browsers = [b100], default_browsers = [],
        calls = [GetDevicesMatchingOptions_call,
          FindAllAvailableBrowsers_call desktop_browser_finder None,
          SelectDefaultBrowser_call desktop_browser_finder,
          FindAllAvailableBrowsers_call android_browser_finder None,
          SelectDefaultBrowser_call android_browser_finder,
          FindAllAvailableBrowsers_call cros_browser_finder None,
          SelectDefaultBrowser_call cros_browser_finder] \<rparr>"
    by (simp add: finder_defs example_env_def example_options_def one_finder_def)
  have st2: "browsers (find_all (example_env two_finders False [None]) ?options) = [b100, b200]"
    "default_browsers (find_all (example_env two_finders False [None]) ?options) = []"
    by (simp_all add: finder_defs example_env_def example_options_def two_finders_def)
  have srt: "sorted_set [browser_type b100, browser_type b200] = [''debug'', ''release'']"
    by (simp add: sorted_set_def b100_def b200_def)
  have a: "fst (FindBrowser (example_env one_finder False [None]) ?options) = Inr (Some b100)"
    using no_default_single_or_type_required
      [OF h1 h2 h3, of "example_env one_finder False [None]"]
    by (simp add: st1)
  have b: "fst (FindBrowser (example_env two_finders False [None]) ?options)
     = Inl (BrowserTypeRequiredException
         (''--browser must be specified. Available browsers:'' @ [CHR 0x0A] @
          ''debug'' @ [CHR 0x0A] @ ''release''))"
    using no_default_single_or_type_required
      [OF h1 h2 h3 st2(2)]
    by (simp add: st2 srt)
  from a b show ?thesis by simp
qed

subsection \<open>Claim C4\<close>

text \<open>
  Claim C4. For options that reach the aggregation with an explicit \<^verbatim>\<open>browser_type\<close>
  (set, not \<^verbatim>\<open>'any'\<close>), the candidates considered are the aggregated candidates whose type
  equals the requested one and whose \<^verbatim>\<open>SupportsOptions(options.browser_options)\<close> holds.
  With no such candidate \<^verbatim>\<open>FindBrowser\<close> returns \<open>None\<close> and raises nothing; otherwise
  it returns the matching candidate with the maximum \<^verbatim>\<open>last_modification_time\<close> (the
  first of them in the order of aggregation).
\<close>

theorem explicit_type_matching:
  assumes "class_name options \<noteq> ''_FakeBrowserFinderOptions''"
    and "check_options options = None"
    and "options_browser_type options = Some t"
    and "t \<noteq> ''any''"
    and "matching = filter (\<lambda>b. browser_type b = t \<and> SupportsOptions b (browser_options options))
                      (browsers (find_all env options))"
  shows "(matching = [] \<longrightarrow> fst (FindBrowser env options) = Inr None) \<and>
         (matching \<noteq> [] \<longrightarrow>
            (\<exists>c pre post.
               fst (FindBrowser env options) = Inr (Some c) \<and>
               matching = pre @ c # post \<and>
               (\<forall>x\<in>set pre. last_modification_time x < last_modification_time c) \<and>
               (\<forall>x\<in>set post. last_modification_time x \<le> last_modification_time c)))"
proof (cases matching)
  case Nil
  then have "fst (FindBrowser env options) = Inr None"
    using assms by (auto simp: FindBrowser_def Let_def split: list.splits)
  with Nil show ?thesis by simp
next
  case (Cons m0 ms)
  then have "browsers (find_all env options) \<noteq> []"
    using assms(5) by auto
  then have "fst (FindBrowser env options) = Inr (Some (py_max last_modification_time m0 ms))"
    using assms Cons by (auto simp: FindBrowser_def Let_def split: list.splits)
  with py_max_first [of m0 ms last_modification_time] show ?thesis
    unfolding Cons by blast
qed

text \<open>
  Three candidates of the requested type, one of which does not support the options: the newer
  of the other two is returned. No candidate of the type exact: \<open>None\<close> is returned.
\<close>

theorem explicit_type_matching_witness:
  "fst (FindBrowser (example_env three_releases True [None]) (example_options (Some ''release'')))
     = Inr (Some b300) \<and>
   fst (FindBrowser (example_env three_releases True [None]) (example_options (Some ''exact'')
          \<lparr> browser_executable := Some ''/usr/bin/chrome'' \<rparr>)) = Inr None"
proof -
  let ?env = "example_env three_releases True [None]"
  let ?o1 = "example_options (Some ''release'')"
  let ?o2 = "example_options (Some ''exact'') \<lparr> browser_executable := Some ''/usr/bin/chrome'' \<rparr>"
  have b1: "browsers (find_all ?env ?o1) = [b100, b300, b400]"
    by (simp add: finder_defs example_env_def example_options_def three_releases_def)
  have b2: "browsers (find_all ?env ?o2) = [b100, b300, b400]"
    by (simp add: finder_defs example_env_def example_options_def three_releases_def)
  have m1: "[b100, b300] =
      filter (\<lambda>b. browser_type b = ''release'' \<and> SupportsOptions b (browser_options ?o1))
        (browsers (find_all ?env ?o1))"
    unfolding b1 by (simp add: b100_def b300_def b400_def)
  have m2: "[] =
      filter (\<lambda>b. browser_type b = ''exact'' \<and> SupportsOptions b (browser_options ?o2))
        (browsers (find_all ?env ?o2))"
    unfolding b2 by (simp add: b100_def b300_def b400_def)
  have "\<exists>c pre post. fst (FindBrowser ?env ?o1) = Inr (Some c) \<and> [b100, b300] = pre @ c # post
      \<and> (\<forall>x\<in>set post. last_modification_time x \<le> last_modification_time c)"
    using explicit_type_matching [of ?o1 "''release''" "[b100, b300]" ?env, OF _ _ _ _ m1]
    by (simp add: example_options_def check_options_def) blast
  then obtain c pre post where r: "fst (FindBrowser ?env ?o1) = Inr (Some c)"
    and split: "[b100, b300] = pre @ c # post"
    and later: "\<forall>x\<in>set post. last_modification_time x \<le> last_modification_time c"
    by blast
  have "c = b300"
  proof (cases pre)
    case Nil
    with split have "c = b100" "post = [b300]" by simp_all
    with later show ?thesis by (simp add: b100_def b300_def)
  next
    case (Cons p ps)
    with split show ?thesis by (cases ps) simp_all
  qed
  with r have a: "fst (FindBrowser ?env ?o1) = Inr (Some b300)" by simp
  have b: "fst (FindBrowser ?env ?o2) = Inr None"
    using explicit_type_matching [of ?o2 "''exact''" "[]" ?env, OF _ _ _ _ m2]
    by (simp add: example_options_def check_options_def)
  from a b show ?thesis by simp
qed

subsection \<open>Claim C5\<close>

text \<open>
  Claim C5. For options that reach the aggregation with \<^verbatim>\<open>browser_type == 'any'\<close>, a
  non-empty list of aggregated candidates and every candidate's type listed in
  \<^verbatim>\<open>FindAllBrowserTypes(options)\<close>: that list is the concatenation of the type lists of the
  desktop, the android and the cros finder, in this order; \<^verbatim>\<open>FindBrowser\<close> returns the
  candidate whose type has the lowest index (position of the first occurrence) in it, the
  first-seen one among candidates of equal index; and \<^verbatim>\<open>last_modification_time\<close> plays no
  role: with the timestamps of all candidates changed in any way the same candidate is chosen.
\<close>

theorem any_type_lowest_index:
  assumes "class_name options \<noteq> ''_FakeBrowserFinderOptions''"
    and "check_options options = None"
    and "options_browser_type options = Some ''any''"
    and "browsers (find_all env options) \<noteq> []"
    and "\<forall>b\<in>set (browsers (find_all env options)).
           browser_type b \<in> set (FindAllBrowserTypes env options)"
  shows "FindAllBrowserTypes env options =
           finder_FindAllBrowserTypes env desktop_browser_finder options @
           finder_FindAllBrowserTypes env android_browser_finder options @
           finder_FindAllBrowserTypes env cros_browser_finder options \<and>
         (\<exists>c pre post.
           fst (FindBrowser env options) = Inr (Some c) \<and>
           browsers (find_all env options) = pre @ c # post \<and>
           (\<forall>x\<in>set pre. index (FindAllBrowserTypes env options) (browser_type c)
                          < index (FindAllBrowserTypes env options) (browser_type x)) \<and>
           (\<forall>x\<in>set post. index (FindAllBrowserTypes env options) (browser_type c)
                          \<le> index (FindAllBrowserTypes env options) (browser_type x))) \<and>
         (\<forall>b\<in>set (browsers (find_all env options)).
           index (FindAllBrowserTypes env options) (browser_type b)
             < length (FindAllBrowserTypes env options) \<and>
           FindAllBrowserTypes env options ! index (FindAllBrowserTypes env options) (browser_type b)
             = browser_type b \<and>
           (\<forall>j < index (FindAllBrowserTypes env options) (browser_type b).
              FindAllBrowserTypes env options ! j \<noteq> browser_type b)) \<and>
         (\<forall>env2 f.
           (\<forall>bf. finder_FindAllBrowserTypes env2 bf options = finder_FindAllBrowserTypes env bf options) \<and>
           GetDevicesMatchingOptions env2 options = GetDevicesMatchingOptions env options \<and>
           (\<forall>bf dev. finder_FindAllAvailableBrowsers env2 bf options dev =
              map (retime f) (finder_FindAllAvailableBrowsers env bf options dev)) \<longrightarrow>
           fst (FindBrowser env2 options) =
             map_sum id (map_option (retime f)) (fst (FindBrowser env options)))"
proof (intro conjI)
  show "FindAllBrowserTypes env options =
           finder_FindAllBrowserTypes env desktop_browser_finder options @
           finder_FindAllBrowserTypes env android_browser_finder options @
           finder_FindAllBrowserTypes env cros_browser_finder options"
    by (simp add: FindAllBrowserTypes_def BROWSER_FINDERS_def)
next
  obtain b0 bs where bs: "browsers (find_all env options) = b0 # bs"
    using assms(4) by (cases "browsers (find_all env options)") auto
  have "\<not> list_ex (\<lambda>b. browser_type b \<notin> set (FindAllBrowserTypes env options)) (b0 # bs)"
    using assms(5) unfolding bs list_ex_iff by blast
  then have "fst (FindBrowser env options) =
      Inr (Some (py_min (\<lambda>b. index (FindAllBrowserTypes env options) (browser_type b)) b0 bs))"
    unfolding FindBrowser_any [OF assms(1-3)] bs by simp
  with py_min_first [of b0 bs "\<lambda>b. index (FindAllBrowserTypes env options) (browser_type b)"]
  show "\<exists>c pre post.
           fst (FindBrowser env options) = Inr (Some c) \<and>
           browsers (find_all env options) = pre @ c # post \<and>
           (\<forall>x\<in>set pre. index (FindAllBrowserTypes env options) (browser_type c)
                          < index (FindAllBrowserTypes env options) (browser_type x)) \<and>
           (\<forall>x\<in>set post. index (FindAllBrowserTypes env options) (browser_type c)
                          \<le> index (FindAllBrowserTypes env options) (browser_type x))"
    unfolding bs by blast
next
  show "\<forall>b\<in>set (browsers (find_all env options)).
           index (FindAllBrowserTypes env options) (browser_type b)
             < length (FindAllBrowserTypes env options) \<and>
           FindAllBrowserTypes env options ! index (FindAllBrowserTypes env options) (browser_type b)
             = browser_type b \<and>
           (\<forall>j < index (FindAllBrowserTypes env options) (browser_type b).
              FindAllBrowserTypes env options ! j \<noteq> browser_type b)"
    using assms(5) index_less index_nth index_first by metis
next
  show "\<forall>env2 f.
           (\<forall>bf. finder_FindAllBrowserTypes env2 bf options = finder_FindAllBrowserTypes env bf options) \<and>
           GetDevicesMatchingOptions env2 options = GetDevicesMatchingOptions env options \<and>
           (\<forall>bf dev. finder_FindAllAvailableBrowsers env2 bf options dev =
              map (retime f) (finder_FindAllAvailableBrowsers env bf options dev)) \<longrightarrow>
           fst (FindBrowser env2 options) =
             map_sum id (map_option (retime f)) (fst (FindBrowser env options))"
    using FindBrowser_any_retime [OF assms(1-3)] by blast
qed

text \<open>
  Two candidates: the older one is of the type release (index 1), the newer one of the type
  debug (index 2). The older one is returned.
\<close>

theorem any_type_lowest_index_witness:
  "FindAllBrowserTypes (example_env two_finders True [None]) (example_options (Some ''any'')) =
     [''exact'', ''release'', ''debug'', ''android-chromium'', ''cros-chrome'', ''cros-chrome-guest''] \<and>
   browsers (find_all (example_env two_finders True [None]) (example_options (Some ''any'')))
     = [b100, b200] \<and>
   last_modification_time b100 < last_modification_time b200 \<and>
   fst (FindBrowser (example_env two_finders True [None]) (example_options (Some ''any'')))
     = Inr (Some b100)"
proof -
  let ?env = "example_env two_finders True [None]"
  let ?options = "example_options (Some ''any'')"
  have h1: "class_name ?options \<noteq> ''_FakeBrowserFinderOptions''"
    by (simp add: example_options_def)
  have h2: "check_options ?options = None"
    by (simp add: example_options_def check_options_def)
  have h3: "options_browser_type ?options = Some ''any''"
    by (simp add: example_options_def)
  have ty: "FindAllBrowserTypes ?env ?options =
     [''exact'', ''release'', ''debug'', ''android-chromium'', ''cros-chrome'', ''cros-chrome-guest'']"
    by (simp add: FindAllBrowserTypes_def BROWSER_FINDERS_def example_env_def)
  have bs: "browsers (find_all ?env ?options) = [b100, b200]"
    by (simp add: finder_defs example_env_def example_options_def two_finders_def)
  have h4: "browsers (find_all ?env ?options) \<noteq> []"
    by (simp add: bs)
  have h5: "\<forall>b\<in>set (browsers (find_all ?env ?options)).
      browser_type b \<in> set (FindAllBrowserTypes ?env ?options)"
    unfolding bs ty by (simp add: b100_def b200_def)
  have i1: "index (FindAllBrowserTypes ?env ?options) (browser_type b100) = 1"
    and i2: "index (FindAllBrowserTypes ?env ?options) (browser_type b200) = 2"
    unfolding ty by (simp_all add: b100_def b200_def)
  from any_type_lowest_index [OF h1 h2 h3 h4 h5]
  obtain c pre post where r: "fst (FindBrowser ?env ?options) = Inr (Some c)"
    and split: "[b100, b200] = pre @ c # post"
    and before: "\<forall>x\<in>set pre. index (FindAllBrowserTypes ?env ?options) (browser_type c)
        < index (FindAllBrowserTypes ?env ?options) (browser_type x)"
    unfolding bs by blast
  have "c = b100"
  proof (cases pre)
    case Nil
    with split show ?thesis by simp
  next
    case (Cons p ps)
    with split have p: "p = b100" by simp
    from Cons split have "c = b200" by (cases ps) simp_all
    with before Cons p i1 i2 show ?thesis by simp
  qed
  with r ty bs show ?thesis by (simp add: b100_def b200_def)
qed

subsection \<open>Claim C6\<close>

text \<open>
  Claim C6. A run of \<^verbatim>\<open>FindBrowser\<close> on options not of the fake class that returns a
  candidate (by the default path, the single-candidate path, the \<^verbatim>\<open>'any'\<close> path or the
  explicit-type path) invokes \<^verbatim>\<open>UpdateExecutableIfNeeded\<close> of that candidate exactly once,
  as its last call, and of no other candidate; a run that returns \<open>None\<close> or raises invokes
  the hook of no candidate. (The fake options class returns its pre-built browser with no call.)
\<close>

theorem update_hook_once:
  "hook_calls (snd (FindBrowser env options)) =
     (if class_name options = ''_FakeBrowserFinderOptions'' then []
      else case fst (FindBrowser env options) of
             Inr (Some b) \<Rightarrow> [b]
           | Inr None \<Rightarrow> []
           | Inl e \<Rightarrow> []) \<and>
   (class_name options \<noteq> ''_FakeBrowserFinderOptions'' \<longrightarrow>
      (\<forall>b. fst (FindBrowser env options) = Inr (Some b) \<longrightarrow>
         (\<exists>evs. snd (FindBrowser env options) = evs @ [UpdateExecutableIfNeeded_call b] \<and>
                hook_calls evs = [])))"
  by (auto simp: FindBrowser_def Let_def hook_calls_append hook_calls_find_all hook_calls_types
      split: list.splits option.splits)

text \<open>A run that returns a candidate, a run that raises, and a run that returns \<open>None\<close>.\<close>

theorem update_hook_once_witness:
  "hook_calls (snd (FindBrowser (example_env two_finders True [None]) (example_options None)))
     = [b200] \<and>
   hook_calls (snd (FindBrowser (example_env two_finders False [None]) (example_options None)))
     = [] \<and>
   hook_calls (snd (FindBrowser (example_env two_finders True [None])
       (example_options (Some ''cros-chrome-guest'')))) = []"
proof -
  have r1: "fst (FindBrowser (example_env two_finders True [None]) (example_options None))
      = Inr (Some b200)"
    by (simp add: finder_defs example_defs)
  have r2: "\<exists>msg. fst (FindBrowser (example_env two_finders False [None]) (example_options None))
      = Inl (BrowserTypeRequiredException msg)"
    by (simp add: finder_defs example_defs)
  have r3: "fst (FindBrowser (example_env two_finders True [None])
      (example_options (Some ''cros-chrome-guest''))) = Inr None"
    by (simp add: finder_defs example_defs)
  have nf: "\<And>t. class_name (example_options t) \<noteq> ''_FakeBrowserFinderOptions''"
    by (simp add: example_options_def)
  show ?thesis
    using update_hook_once [of "example_env two_finders True [None]" "example_options None"]
      update_hook_once [of "example_env two_finders False [None]" "example_options None"]
      update_hook_once [of "example_env two_finders True [None]"
        "example_options (Some ''cros-chrome-guest'')"]
      r1 r2 r3 nf
    by auto
qed

subsection \<open>Claim C7\<close>

text \<open>
  Claim C7, amended. When a call of the memoized \<^verbatim>\<open>FindBrowser\<close> returns (a candidate or
  \<open>None\<close>), a second call with an equal configuration returns the same result from the
  cache and makes no call at all, so that across the two calls every finder's
  \<^verbatim>\<open>FindAllAvailableBrowsers\<close> is invoked at most once per matching device.
\<close>

theorem cached_second_call:
  assumes "FindBrowser_cached env cache options = ((Inr r, evs), cache')"
  shows "FindBrowser_cached env cache' options = ((Inr r, []), cache') \<and>
         (\<forall>bf. discovery_calls bf (evs @ snd (fst (FindBrowser_cached env cache' options)))
                 \<le> length (GetDevicesMatchingOptions env options))"
proof -
  have hit: "cache' options = Some r"
    using assms
    by (auto simp: FindBrowser_cached_def split: option.splits prod.splits sum.splits)
  then have second: "FindBrowser_cached env cache' options = ((Inr r, []), cache')"
    by (simp add: FindBrowser_cached_def)
  have "evs = [] \<or> evs = snd (FindBrowser env options)"
    using assms
    by (auto simp: FindBrowser_cached_def split: option.splits prod.splits sum.splits)
  then have "\<And>bf. discovery_calls bf evs \<le> length (GetDevicesMatchingOptions env options)"
    using discovery_calls_FindBrowser [of _ env options] by auto
  with second show ?thesis by simp
qed

text \<open>One device, one candidate: the second call is answered from the cache.\<close>

theorem cached_second_call_witness:
  "FindBrowser_cached (example_env one_finder True [Some 1])
      (snd (FindBrowser_cached (example_env one_finder True [Some 1]) (\<lambda>_. None)
         (example_options None)))
      (example_options None)
     = ((Inr (Some b100), []),
        snd (FindBrowser_cached (example_env one_finder True [Some 1]) (\<lambda>_. None)
          (example_options None)))"
proof -
  let ?env = "example_env one_finder True [Some 1]"
  let ?options = "example_options None"
  have fb: "fst (FindBrowser ?env ?options) = Inr (Some b100)"
    by (simp add: finder_defs example_env_def example_options_def one_finder_def)
  then have pair: "FindBrowser ?env ?options = (Inr (Some b100), snd (FindBrowser ?env ?options))"
    by (metis prod.collapse)
  have "FindBrowser_cached ?env (\<lambda>_. None) ?options =
      ((Inr (Some b100), snd (FindBrowser ?env ?options)),
       snd (FindBrowser_cached ?env (\<lambda>_. None) ?options))"
    unfolding FindBrowser_cached_def by (subst (1 2) pair) simp
  from cached_second_call [OF this] show ?thesis by simp
qed

text \<open>
  Claim C7 as stated fails with two matching devices: the first call returns, the second is
  answered from the cache, and the desktop finder's \<^verbatim>\<open>FindAllAvailableBrowsers\<close> has been
  invoked twice, once per device.
\<close>

theorem two_devices_two_discovery_calls:
  "fst (fst (FindBrowser_cached (example_env one_finder True [Some 1, Some 2]) (\<lambda>_. None)
      (example_options None))) = Inr (Some b100) \<and>
   FindBrowser_cached (example_env one_finder True [Some 1, Some 2])
      (snd (FindBrowser_cached (example_env one_finder True [Some 1, Some 2]) (\<lambda>_. None)
         (example_options None)))
      (example_options None)
     = ((Inr (Some b100), []),
        snd (FindBrowser_cached (example_env one_finder True [Some 1, Some 2]) (\<lambda>_. None)
          (example_options None))) \<and>
   discovery_calls desktop_browser_finder
     (snd (fst (FindBrowser_cached (example_env one_finder True [Some 1, Some 2]) (\<lambda>_. None)
        (example_options None))) @
      snd (fst (FindBrowser_cached (example_env one_finder True [Some 1, Some 2])
        (snd (FindBrowser_cached (example_env one_finder True [Some 1, Some 2]) (\<lambda>_. None)
           (example_options None)))
        (example_options None)))) = 2"
proof -
  let ?env = "example_env one_finder True [Some 1, Some 2]"
  let ?options = "example_options None"
  let ?evs = "[GetDevicesMatchingOptions_call,
      FindAllAvailableBrowsers_call desktop_browser_finder (Some 1),
      SelectDefaultBrowser_call desktop_browser_finder,
      FindAllAvailableBrowsers_call android_browser_finder (Some 1),
      SelectDefaultBrowser_call android_browser_finder,
      FindAllAvailableBrowsers_call cros_browser_finder (Some 1),
      SelectDefaultBrowser_call cros_browser_finder,
      FindAllAvailableBrowsers_call desktop_browser_finder (Some 2),
      SelectDefaultBrowser_call desktop_browser_finder,
      FindAllAvailableBrowsers_call android_browser_finder (Some 2),
      SelectDefaultBrowser_call android_browser_finder,
      FindAllAvailableBrowsers_call cros_browser_finder (Some 2),
      SelectDefaultBrowser_call cros_browser_finder,
      UpdateExecutableIfNeeded_call b100]"
  have fb: "FindBrowser ?env ?options = (Inr (Some b100), ?evs)"
    by (simp add: finder_defs example_env_def example_options_def one_finder_def)
  have first: "FindBrowser_cached ?env (\<lambda>_. None) ?options =
      ((Inr (Some b100), ?evs), (\<lambda>_. None)(?options \<mapsto> Some b100))"
    unfolding FindBrowser_cached_def fb by simp
  have second: "FindBrowser_cached ?env ((\<lambda>_. None)(?options \<mapsto> Some b100)) ?options =
      ((Inr (Some b100), []), (\<lambda>_. None)(?options \<mapsto> Some b100))"
    by (simp add: FindBrowser_cached_def)
  show ?thesis
    unfolding first snd_conv fst_conv second by simp
qed

subsection \<open>Claim C8\<close>

text \<open>
  Claim C8. \<^verbatim>\<open>GetAllAvailableBrowserTypes\<close> returns a sorted list without duplicates whose
  elements are the type names of the discovered candidates and, in addition,
  \<^verbatim>\<open>'reference'\<close> if and only if the \<^verbatim>\<open>target_os\<close> of some discovered candidate is
  \<^verbatim>\<open>'darwin'\<close> or starts with \<^verbatim>\<open>'linux'\<close> or with \<^verbatim>\<open>'win'\<close>; then it occurs exactly
  once, however many such candidates there are. When no candidate is itself of the type
  \<^verbatim>\<open>'reference'\<close>, the list contains \<^verbatim>\<open>'reference'\<close> exactly in that case. The discovered
  candidates are those that the three finders report for the matching devices other than
  \<open>None\<close> (for which \<^verbatim>\<open>GetAllAvailableBrowsers\<close> returns the empty list).
\<close>

theorem available_browser_types:
  "sorted (GetAllAvailableBrowserTypes env options) \<and>
   distinct (GetAllAvailableBrowserTypes env options) \<and>
   set (GetAllAvailableBrowserTypes env options) =
     browser_type ` set (possible_browsers env options) \<union>
     (if \<exists>b\<in>set (possible_browsers env options). reference_os b then {''reference''} else {}) \<and>
   ((\<exists>b\<in>set (possible_browsers env options). reference_os b) \<longrightarrow>
      count_list (GetAllAvailableBrowserTypes env options) ''reference'' = 1) \<and>
   ((\<forall>b\<in>set (possible_browsers env options). browser_type b \<noteq> ''reference'') \<longrightarrow>
      (''reference'' \<in> set (GetAllAvailableBrowserTypes env options)) =
      (\<exists>b\<in>set (possible_browsers env options). reference_os b)) \<and>
   possible_browsers env options =
     concat (map (\<lambda>dev. concat (map (\<lambda>bf. finder_FindAllAvailableBrowsers env bf options dev)
                                   [desktop_browser_finder, android_browser_finder,
                                    cros_browser_finder]))
              (filter (\<lambda>dev. dev \<noteq> None) (GetDevicesMatchingOptions env options)))"
proof -
  let ?L = "GetAllAvailableBrowserTypes env options"
  let ?P = "possible_browsers env options"
  have s: "sorted ?L"
    by (simp add: GetAllAvailableBrowserTypes_def Let_def)
  have d: "distinct ?L"
    by (simp add: GetAllAvailableBrowserTypes_def Let_def add_reference_distinct)
  have e: "set ?L = browser_type ` set ?P \<union>
     (if \<exists>b\<in>set ?P. reference_os b then {''reference''} else {})"
    by (simp add: GetAllAvailableBrowserTypes_def Let_def add_reference_set)
  have c: "(\<exists>b\<in>set ?P. reference_os b) \<longrightarrow> count_list ?L ''reference'' = 1"
    using e by (simp add: count_list_distinct [OF d])
  have i: "(\<forall>b\<in>set ?P. browser_type b \<noteq> ''reference'') \<longrightarrow>
      (''reference'' \<in> set ?L) = (\<exists>b\<in>set ?P. reference_os b)"
    unfolding e by auto
  have p: "?P = concat (map (\<lambda>dev. concat (map (\<lambda>bf. finder_FindAllAvailableBrowsers env bf options dev)
                                   [desktop_browser_finder, android_browser_finder,
                                    cros_browser_finder]))
              (filter (\<lambda>dev. dev \<noteq> None) (GetDevicesMatchingOptions env options)))"
    unfolding possible_browsers_def possible_browsers_devices BROWSER_FINDERS_def ..
  from s d e c i p show ?thesis by blast
qed

text \<open>Two devices with two Linux candidates each: \<^verbatim>\<open>'reference'\<close> occurs once.\<close>

theorem available_browser_types_witness:
  "possible_browsers (example_env two_finders True [Some 1, Some 2]) (example_options None)
     = [b100, b200, b100, b200] \<and>
   target_os b100 = ''linux'' \<and> target_os b200 = ''linux'' \<and>
   GetAllAvailableBrowserTypes (example_env two_finders True [Some 1, Some 2])
     (example_options None) = [''debug'', ''reference'', ''release''] \<and>
   count_list (GetAllAvailableBrowserTypes (example_env two_finders True [Some 1, Some 2])
     (example_options None)) ''reference'' = 1"
proof -
  let ?env = "example_env two_finders True [Some 1, Some 2]"
  let ?options = "example_options None"
  have p: "possible_browsers ?env ?options = [b100, b200, b100, b200]"
    by (simp add: possible_browsers_def GetAllAvailableBrowsers_def BROWSER_FINDERS_def
        example_env_def two_finders_def)
  have os: "target_os b100 = ''linux''" "target_os b200 = ''linux''"
    by (simp_all add: b100_def b200_def)
  have l: "GetAllAvailableBrowserTypes ?env ?options = [''debug'', ''reference'', ''release'']"
    unfolding GetAllAvailableBrowserTypes_def p
    by (simp add: Let_def startswith_def b100_def b200_def)
  have r: "\<exists>b\<in>set (possible_browsers ?env ?options). reference_os b"
    unfolding p by (simp add: reference_os_def startswith_def b100_def)
  from available_browser_types [of ?env ?options] r
  have "count_list (GetAllAvailableBrowserTypes ?env ?options) ''reference'' = 1"
    by blast
  with p os l show ?thesis by simp
qed

subsection \<open>Claim C9\<close>

text \<open>
  Claim C9, amended. Options that pass the four checks satisfy: \<^verbatim>\<open>browser_executable\<close>
  is set if and only if \<^verbatim>\<open>browser_type\<close> is \<^verbatim>\<open>'exact'\<close>; if \<^verbatim>\<open>cros_remote\<close> is
  set then \<^verbatim>\<open>browser_type\<close> is \<^verbatim>\<open>'cros-chrome'\<close> or \<^verbatim>\<open>'cros-chrome-guest'\<close>; and if
  \<^verbatim>\<open>browser_type\<close> is \<^verbatim>\<open>'cros-chrome'\<close> then \<^verbatim>\<open>cros_remote\<close> is set.
\<close>

theorem accepted_options_invariant:
  "check_options options = None \<Longrightarrow>
   (browser_executable options \<noteq> None \<longleftrightarrow> options_browser_type options = Some ''exact'') \<and>
   (cros_remote options \<noteq> None \<longrightarrow>
      options_browser_type options = Some ''cros-chrome'' \<or>
      options_browser_type options = Some ''cros-chrome-guest'') \<and>
   (options_browser_type options = Some ''cros-chrome'' \<longrightarrow> cros_remote options \<noteq> None)"
  unfolding check_options_iff by auto

text \<open>Options asking for \<^verbatim>\<open>'cros-chrome-guest'\<close> pass the checks.\<close>

theorem accepted_options_invariant_witness:
  "check_options (example_options (Some ''cros-chrome-guest'')) = None \<and>
   browser_executable (example_options (Some ''cros-chrome-guest'')) = None \<and>
   options_browser_type (example_options (Some ''cros-chrome-guest'')) \<noteq> Some ''exact''"
  using accepted_options_invariant [of "example_options (Some ''cros-chrome-guest'')"]
  by (simp add: example_options_def check_options_def)

text \<open>
  Claim C9 as stated fails: \<^verbatim>\<open>'cros-chrome-guest'\<close> with no \<^verbatim>\<open>cros_remote\<close> passes the
  checks, and \<^verbatim>\<open>FindBrowser\<close> goes on to enumerate the devices.
\<close>

theorem cros_guest_without_remote_accepted:
  "check_options (example_options (Some ''cros-chrome-guest'')) = None \<and>
   options_browser_type (example_options (Some ''cros-chrome-guest'')) = Some ''cros-chrome-guest'' \<and>
   cros_remote (example_options (Some ''cros-chrome-guest'')) = None \<and>
   GetDevicesMatchingOptions_call \<in> set (snd (FindBrowser (example_env two_finders True [None])
      (example_options (Some ''cros-chrome-guest''))))"
  by (simp add: finder_defs example_defs)

subsection \<open>Claim C10\<close>

text \<open>
  Claim C10. For an options object whose class is named \<^verbatim>\<open>_FakeBrowserFinderOptions\<close>,
  \<^verbatim>\<open>FindBrowser\<close> returns \<^verbatim>\<open>options.fake_possible_browser\<close> and makes no call at
  all: no check of the options, no device enumeration, no finder call and no
  \<^verbatim>\<open>UpdateExecutableIfNeeded\<close>, whatever the other attributes are.
\<close>

theorem fake_options_short_circuit:
  "class_name options = ''_FakeBrowserFinderOptions'' \<Longrightarrow>
   FindBrowser env options = (Inr (fake_possible_browser options), [])"
  by (simp add: FindBrowser_def)

text \<open>A fake options object that the four checks would reject.\<close>

theorem fake_options_short_circuit_witness:
  "check_options fake_remote_options \<noteq> None \<and>
   FindBrowser (example_env two_finders True [None]) fake_remote_options = (Inr (Some b100), [])"
  using fake_options_short_circuit [of fake_remote_options "example_env two_finders True [None]"]
  by (simp add: fake_remote_options_def check_options_def)

end
